theory Spec2Isabelle
  imports Main "HOL-Library.Char_ord" "HOL-Library.List_Lexorder"
begin

section \<open>Text as Python reads and writes it\<close>

text \<open>
  A Python \<open>str\<close> is modelled as a \<open>string\<close>; one \<open>char\<close> stands for one code point
  below 256, so names are restricted to the Latin-1 range.
\<close>

definition LF :: char where
  "LF = CHR 0x0A"

definition CR :: char where
  "CR = CHR 0x0D"

text \<open>
  \<open>str.isspace\<close> on the code points below 256: tab, line feed, vertical tab, form feed,
  carriage return, the four separators 0x1C..0x1F, space, NEL (0x85) and the no-break
  space (0xA0).
\<close>

definition isspace :: "char \<Rightarrow> bool" where
  "isspace c = (of_char c \<in> {9, 10, 11, 12, 13, 28, 29, 30, 31, 32, 133, 160 :: nat})"

text \<open>\<open>str.strip()\<close> with no argument: leading and trailing white space removed.\<close>

definition strip :: "string \<Rightarrow> string" where
  "strip s = rev (dropWhile isspace (rev (dropWhile isspace s)))"

text \<open>
  \<open>str.lower()\<close> on the code points below 256: the ASCII capitals and the Latin-1
  capitals 0xC0..0xDE (0xD7, the multiplication sign, apart) move up by 32.
\<close>

definition lower_char :: "char \<Rightarrow> char" where
  "lower_char c =
     (let n = (of_char c :: nat)
      in if (65 \<le> n \<and> n \<le> 90) \<or> (192 \<le> n \<and> n \<le> 222 \<and> n \<noteq> 215)
         then char_of (n + 32) else c)"

definition lower :: "string \<Rightarrow> string" where
  "lower s = map lower_char s"

text \<open>
  A file opened with \<open>open(path, "r")\<close> is read with universal newlines: \<open>\r\n\<close> and a
  lone \<open>\r\<close> arrive as \<open>\n\<close>.
\<close>

fun translate_newlines :: "string \<Rightarrow> string" where
  "translate_newlines [] = []"
| "translate_newlines [c] = (if c = CR then [LF] else [c])"
| "translate_newlines (c # d # cs) =
     (if c = CR then
        (if d = LF then LF # translate_newlines cs
         else LF # translate_newlines (d # cs))
      else c # translate_newlines (d # cs))"

text \<open>
  Iterating over the open file yields its lines, each with its terminating \<open>\n\<close>; a last
  line without terminator is yielded as it is. \<open>split_lines cur s\<close> carries the characters
  of the line being read in \<open>cur\<close>.
\<close>

fun split_lines :: "string \<Rightarrow> string \<Rightarrow> string list" where
  "split_lines cur [] = (if cur = [] then [] else [cur])"
| "split_lines cur (c # cs) =
     (if c = LF then (cur @ [c]) # split_lines [] cs
      else split_lines (cur @ [c]) cs)"

definition file_lines :: "string \<Rightarrow> string list" where
  "file_lines s = split_lines [] (translate_newlines s)"

section \<open>Processing ledger\<close>

text \<open>
  The file at \<open>PROCESSING_LOG\<close>: missing, present with the given text, or present but
  raising when it is opened or decoded (the text is what an append still adds to).
\<close>

datatype ledger_file = Missing | Text string | Unreadable string

text \<open>
  The functions keep their names without the leading underscore.
  \<open>_is_file_processed\<close>: False when the file does not exist, False when reading raises,
  otherwise membership of the name in the set of stripped non-blank lines.
\<close>

fun is_file_processed :: "ledger_file \<Rightarrow> string \<Rightarrow> bool" where
  "is_file_processed Missing name = False"
| "is_file_processed (Unreadable t) name = False"
| "is_file_processed (Text t) name =
     (name \<in> set (map strip (filter (\<lambda>ln. strip ln \<noteq> []) (file_lines t))))"

text \<open>
  \<open>_mark_processed\<close>: the parent directory is created when needed and the name and a
  line feed are appended; a missing file is created by the append.
\<close>

fun mark_processed :: "ledger_file \<Rightarrow> string \<Rightarrow> ledger_file" where
  "mark_processed Missing name = Text (name @ [LF])"
| "mark_processed (Text t) name = Text (t @ name @ [LF])"
| "mark_processed (Unreadable t) name = Unreadable (t @ name @ [LF])"

section \<open>Geometry engine, reference files and tiles\<close>

text \<open>
  The connection \<open>con\<close>: the spatial functions of the analytic engine and the two census
  tables. The engine is a library, so its functions are parameters: \<open>st_srid\<close> is the
  integer read by \<open>SELECT ST_SRID(geom) ... LIMIT 1\<close> (None when the query or \<open>int()\<close>
  raises), \<open>st_transform g src dst\<close> reprojects between two EPSG codes (None when it
  raises), \<open>st_intersects\<close> is the boundary-inclusive predicate.
\<close>

record 'g con =
  st_srid :: "'g \<Rightarrow> int option"
  st_transform :: "'g \<Rightarrow> int \<Rightarrow> int \<Rightarrow> 'g option"
  st_intersects :: "'g \<Rightarrow> 'g \<Rightarrow> bool"
  census_us :: "'g list"
  census_canada :: "'g list"

definition OUTPUT_CRS :: int where
  "OUTPUT_CRS = 4326"

definition MIN_FILE_SIZE :: nat where
  "MIN_FILE_SIZE = 1000"

text \<open>
  What \<open>fiona\<close> finds in a file: opening raises, the CRS is empty, the CRS cannot be
  parsed, or \<open>to_epsg()\<close> gives a code or None.
\<close>

datatype crs_meta = Unopenable | CrsEmpty | CrsInvalid | CrsEpsg "int option"

fun get_srid_via_fiona :: "crs_meta \<Rightarrow> int option" where
  "get_srid_via_fiona Unopenable = None"
| "get_srid_via_fiona CrsEmpty = None"
| "get_srid_via_fiona CrsInvalid = None"
| "get_srid_via_fiona (CrsEpsg epsg) = epsg"

definition geom_names :: "string list" where
  "geom_names = [''geometry'', ''geom'', ''wkb_geometry'', ''geom_wkb'', ''shape'']"

text \<open>
  \<open>_detect_geom_col\<close> over the column names that \<open>DESCRIBE\<close> lists: the first whose
  lower-case form is a known alias. (A \<open>DESCRIBE\<close> that raises would give None as well;
  the tables described here have just been created.)
\<close>

fun detect_geom_col :: "string list \<Rightarrow> string option" where
  "detect_geom_col [] = None"
| "detect_geom_col (col # cols) =
     (if lower col \<in> set geom_names then Some col else detect_geom_col cols)"

text \<open>
  A building tile on disk: whether \<open>stat\<close> and \<open>ST_Read\<close> succeed, the columns of the
  loaded table, the CRS metadata, and the rows (the attributes, and the value of the
  geometry column).
\<close>

record ('a, 'g) tile =
  readable :: bool
  columns :: "string list"
  crs :: crs_meta
  buildings :: "('a \<times> 'g) list"

record 'g census_file =
  c_exists :: bool
  c_readable :: bool
  c_columns :: "string list"
  c_crs :: crs_meta
  c_blocks :: "'g list"

text \<open>\<open>load_census_once\<close>: the SRID of a loaded reference file, None when it is skipped.\<close>

definition load_census_once :: "'g census_file \<Rightarrow> int option" where
  "load_census_once f =
     (if \<not> c_exists f then None
      else if \<not> c_readable f then None
      else (case detect_geom_col (c_columns f) of
              None \<Rightarrow> None
            | Some geom_col \<Rightarrow> get_srid_via_fiona (c_crs f)))"

section \<open>Tile processor\<close>

datatype 'r outcome = GEOM_ERROR | Empty | Matched "'r list"

text \<open>
  The SRID of the tile: read off the geometry of the first row; when that raises (also
  on a tile without rows, where \<open>fetchone()\<close> is None), the file's CRS metadata.
\<close>

definition direct_srid :: "'g con \<Rightarrow> ('a, 'g) tile \<Rightarrow> int option" where
  "direct_srid c t = (case buildings t of [] \<Rightarrow> None | b # bs \<Rightarrow> st_srid c (snd b))"

definition tile_srid :: "'g con \<Rightarrow> ('a, 'g) tile \<Rightarrow> int option" where
  "tile_srid c t =
     (case direct_srid c t of
        Some b_srid \<Rightarrow> Some b_srid
      | None \<Rightarrow> get_srid_via_fiona (crs t))"

text \<open>
  The inner join of the tile with one census table. A building is reprojected into the
  region's reference and gives one row for each block it intersects; the row holds the
  building's attributes and its geometry in \<open>OUTPUT_CRS\<close>, nothing of the block. A
  reprojection that raises aborts the whole query (None).
\<close>

definition join_building ::
  "'g con \<Rightarrow> int \<Rightarrow> int \<Rightarrow> 'g list \<Rightarrow> 'a \<times> 'g \<Rightarrow> ('a \<times> 'g) list option" where
  "join_building c b_srid r_srid blocks b =
     (case st_transform c (snd b) b_srid r_srid of
        None \<Rightarrow> None
      | Some g \<Rightarrow>
          (case filter (st_intersects c g) blocks of
             [] \<Rightarrow> Some []
           | hit # hits \<Rightarrow>
               (case st_transform c (snd b) b_srid OUTPUT_CRS of
                  None \<Rightarrow> None
                | Some out \<Rightarrow> Some (map (\<lambda>blk. (fst b, out)) (hit # hits)))))"

fun join ::
  "'g con \<Rightarrow> int \<Rightarrow> int \<Rightarrow> 'g list \<Rightarrow> ('a \<times> 'g) list \<Rightarrow> ('a \<times> 'g) list option" where
  "join c b_srid r_srid blocks [] = Some []"
| "join c b_srid r_srid blocks (b # bs) =
     (case join_building c b_srid r_srid blocks b of
        None \<Rightarrow> None
      | Some rows \<Rightarrow>
          (case join c b_srid r_srid blocks bs of
             None \<Rightarrow> None
           | Some rest \<Rightarrow> Some (rows @ rest)))"

text \<open>
  One region's block of \<open>process_tile\<close>: what it appends to \<open>results\<close>. A region that did
  not load is skipped, a join that raises is caught, a join without rows adds nothing.
\<close>

definition region_results ::
  "'g con \<Rightarrow> int \<Rightarrow> int option \<Rightarrow> 'g list \<Rightarrow> ('a \<times> 'g) list \<Rightarrow> ('a \<times> 'g) list list" where
  "region_results c b_srid srid blocks bs =
     (case srid of
        None \<Rightarrow> []
      | Some r_srid \<Rightarrow>
          (case join c b_srid r_srid blocks bs of
             None \<Rightarrow> []
           | Some rows \<Rightarrow> if length rows > 0 then [rows] else []))"

text \<open>
  \<open>process_tile\<close>. Of the calls outside the two inner handlers, the load of the tile
  and the detection of column and SRID can fail and give \<open>GEOM_ERROR\<close>; the counting
  query, the final \<open>DROP TABLE\<close> and the conversion of the joined rows are taken to
  succeed.
\<close>

definition process_tile ::
  "'g con \<Rightarrow> ('a, 'g) tile \<Rightarrow> int option \<Rightarrow> int option \<Rightarrow> ('a \<times> 'g) outcome" where
  "process_tile c t us_srid canada_srid =
     (if \<not> readable t then GEOM_ERROR
      else (case detect_geom_col (columns t) of
              None \<Rightarrow> GEOM_ERROR
            | Some geom_col \<Rightarrow>
                (case tile_srid c t of
                   None \<Rightarrow> GEOM_ERROR
                 | Some b_srid \<Rightarrow>
                     (let results =
                            region_results c b_srid us_srid (census_us c) (buildings t)
                          @ region_results c b_srid canada_srid (census_canada c) (buildings t)
                      in if results = [] then Empty else Matched (concat results)))))"

section \<open>Sink appender\<close>

text \<open>
  A GeoPackage path: no file, a file whose layer \<open>buildings\<close> holds the given rows, or
  a file that cannot be read back (left by a write that raised).
\<close>

datatype 'r gpkg = Absent | Layer "'r list" | Broken

text \<open>
  What a write that raises leaves at its path: nothing new, a file that cannot be read
  back, or a readable layer holding the first \<open>k\<close> of the rows (with \<open>k = 0\<close> the empty
  layer that was created before the rows were refused).
\<close>

datatype write_left = LeftNothing | LeftBroken | LeftRows nat

definition left_behind :: "write_left \<Rightarrow> 'r list \<Rightarrow> 'r gpkg \<Rightarrow> 'r gpkg" where
  "left_behind w rows old =
     (case w of
        LeftNothing \<Rightarrow> old
      | LeftBroken \<Rightarrow> Broken
      | LeftRows k \<Rightarrow> Layer (take k rows))"

text \<open>Which operation of one call of \<open>append_to_gpkg\<close> raises, if any.\<close>

datatype sink_fault = NoFault | MkdirFails | ReadFails | WriteFails write_left | ReplaceFails

text \<open>
  The state of the run: the watched directory (file names with their contents), the
  ledger, the master output and its temporary sibling, the two counters of \<open>main\<close>, and
  the console reduced to one entry for each call of \<open>process_tile\<close> (the name on its
  \<open>Processing:\<close> line and what the call returned).
\<close>

record ('a, 'g) state =
  watched :: "(string \<times> ('a, 'g) tile) list"
  ledger :: ledger_file
  master :: "('a \<times> 'g) gpkg"
  master_tmp :: "('a \<times> 'g) gpkg"
  processed_count :: nat
  error_count :: nat
  console :: "(string \<times> ('a \<times> 'g) outcome) list"

definition to_file_tmp :: "('a \<times> 'g) list \<Rightarrow> ('a, 'g) state \<Rightarrow> ('a, 'g) state" where
  "to_file_tmp rows s = s\<lparr>master_tmp := Layer rows\<rparr>"

definition os_replace :: "('a, 'g) state \<Rightarrow> ('a, 'g) state" where
  "os_replace s = s\<lparr>master := master_tmp s, master_tmp := Absent\<rparr>"

text \<open>
  The \<open>try\<close> block of \<open>append_to_gpkg\<close>: the state it leaves and whether it raised.
\<close>

definition write_gpkg ::
  "sink_fault \<Rightarrow> ('a \<times> 'g) list \<Rightarrow> ('a, 'g) state \<Rightarrow> ('a, 'g) state \<times> bool" where
  "write_gpkg fault gdf s =
     (if fault = MkdirFails then (s, True)
      else (case master s of
              Layer existing \<Rightarrow>
                (if fault = ReadFails then (s, True)
                 else (let combined = existing @ gdf
                       in case fault of
                            WriteFails w \<Rightarrow>
                              (s\<lparr>master_tmp := left_behind w combined (master_tmp s)\<rparr>, True)
                          | ReplaceFails \<Rightarrow> (to_file_tmp combined s, True)
                          | _ \<Rightarrow> (os_replace (to_file_tmp combined s), False)))
            | Broken \<Rightarrow> (s, True)
            | Absent \<Rightarrow>
                (case fault of
                   WriteFails w \<Rightarrow> (s\<lparr>master := left_behind w gdf Absent\<rparr>, True)
                 | _ \<Rightarrow> (s\<lparr>master := Layer gdf\<rparr>, False))))"

text \<open>\<open>append_to_gpkg\<close>: the \<open>except\<close> clause logs the exception and the call returns.\<close>

definition append_to_gpkg ::
  "sink_fault \<Rightarrow> ('a \<times> 'g) list \<Rightarrow> ('a, 'g) state \<Rightarrow> ('a, 'g) state" where
  "append_to_gpkg fault gdf s = fst (write_gpkg fault gdf s)"

section \<open>Ingestion loop\<close>

text \<open>
  What the environment decides while one tile is handled: the two sizes that \<open>stat\<close>
  reports around the wait (None when \<open>stat\<close> raises), the fault of the sink, and whether
  \<open>unlink\<close> succeeds.
\<close>

record tile_events =
  size_first :: "nat option"
  size_second :: "nat option"
  sink :: sink_fault
  unlink_ok :: bool

definition is_stable :: "nat option \<Rightarrow> nat option \<Rightarrow> bool" where
  "is_stable s1 s2 =
     (case s1 of
        None \<Rightarrow> False
      | Some size1 \<Rightarrow>
          (case s2 of
             None \<Rightarrow> False
           | Some size2 \<Rightarrow> size1 = size2 \<and> size2 \<ge> MIN_FILE_SIZE))"

definition unlink :: "bool \<Rightarrow> string \<Rightarrow> ('a, 'g) state \<Rightarrow> ('a, 'g) state" where
  "unlink ok name s =
     (if ok then s\<lparr>watched := filter (\<lambda>f. fst f \<noteq> name) (watched s)\<rparr> else s)"

text \<open>The body of \<open>for tile_path in unprocessed\<close>.\<close>

definition handle_tile ::
  "'g con \<Rightarrow> int option \<Rightarrow> int option \<Rightarrow> (string \<Rightarrow> tile_events) \<Rightarrow>
   ('a, 'g) state \<Rightarrow> string \<times> ('a, 'g) tile \<Rightarrow> ('a, 'g) state" where
  "handle_tile c us_srid canada_srid ev s f =
     (let name = fst f; e = ev name
      in if \<not> is_stable (size_first e) (size_second e) then s
         else
           (let result = process_tile c (snd f) us_srid canada_srid;
                s1 = s\<lparr>console := console s @ [(name, result)]\<rparr>
            in case result of
                 GEOM_ERROR \<Rightarrow>
                   s1\<lparr>ledger := mark_processed (ledger s1) name,
                      error_count := error_count s1 + 1\<rparr>
               | Empty \<Rightarrow>
                   unlink (unlink_ok e) name
                     (s1\<lparr>ledger := mark_processed (ledger s1) name,
                         processed_count := processed_count s1 + 1\<rparr>)
               | Matched gdf \<Rightarrow>
                   (let s2 = append_to_gpkg (sink e) gdf s1
                    in unlink (unlink_ok e) name
                         (s2\<lparr>ledger := mark_processed (ledger s2) name,
                             processed_count := processed_count s2 + 1\<rparr>))))"

definition ends_with :: "string \<Rightarrow> string \<Rightarrow> bool" where
  "ends_with suf s = (length suf \<le> length s \<and> drop (length s - length suf) s = suf)"

text \<open>\<open>sorted(BUILDING_DIR.glob("*.geojson"))\<close>, and the candidates left by the ledger.\<close>

definition glob_geojson :: "(string \<times> 't) list \<Rightarrow> (string \<times> 't) list" where
  "glob_geojson dir = filter (\<lambda>f. ends_with ''.geojson'' (fst f)) dir"

definition unprocessed :: "('a, 'g) state \<Rightarrow> (string \<times> ('a, 'g) tile) list" where
  "unprocessed s =
     filter (\<lambda>f. \<not> is_file_processed (ledger s) (fst f))
       (sort_key fst (glob_geojson (watched s)))"

text \<open>One pass of \<open>while True\<close>: scan, then handle each candidate in turn.\<close>

definition main_cycle ::
  "'g con \<Rightarrow> int option \<Rightarrow> int option \<Rightarrow> (string \<Rightarrow> tile_events) \<Rightarrow>
   ('a, 'g) state \<Rightarrow> ('a, 'g) state" where
  "main_cycle c us_srid canada_srid ev s =
     (let todo = unprocessed s
      in if todo = [] then s
         else foldl (handle_tile c us_srid canada_srid ev) s todo)"

text \<open>
  Between two passes the downloader writes files into the watched directory; a pass
  then meets the events of its tiles. The loop never ends by itself, so a run is the
  passes made so far.
\<close>

record ('a, 'g) round =
  arrivals :: "(string \<times> ('a, 'g) tile) list"
  events :: "string \<Rightarrow> tile_events"

definition put_file :: "string \<times> 't \<Rightarrow> (string \<times> 't) list \<Rightarrow> (string \<times> 't) list" where
  "put_file f dir = f # filter (\<lambda>x. fst x \<noteq> fst f) dir"

definition download :: "(string \<times> 't) list \<Rightarrow> (string \<times> 't) list \<Rightarrow> (string \<times> 't) list" where
  "download new dir = foldr put_file new dir"

fun main_run ::
  "'g con \<Rightarrow> int option \<Rightarrow> int option \<Rightarrow> ('a, 'g) round list \<Rightarrow>
   ('a, 'g) state \<Rightarrow> ('a, 'g) state" where
  "main_run c us_srid canada_srid [] s = s"
| "main_run c us_srid canada_srid (r # rs) s =
     main_run c us_srid canada_srid rs
       (main_cycle c us_srid canada_srid (events r)
          (s\<lparr>watched := download (arrivals r) (watched s)\<rparr>))"

text \<open>
  The start of \<open>main\<close>: both reference files are loaded; without any SRID the run is
  given up before the loop (None).
\<close>

definition main_start :: "'g census_file \<Rightarrow> 'g census_file \<Rightarrow> (int option \<times> int option) option" where
  "main_start us_file canada_file =
     (let us_srid = load_census_once us_file;
          canada_srid = load_census_once canada_file
      in if us_srid = None \<and> canada_srid = None then None
         else Some (us_srid, canada_srid))"

section \<open>Notions used in the statements\<close>

text \<open>
  A plain name: not empty, without line break, without white space at either end.
\<close>

definition plain_name :: "string \<Rightarrow> bool" where
  "plain_name n =
     (n \<noteq> [] \<and> \<not> isspace (hd n) \<and> \<not> isspace (last n) \<and> LF \<notin> set n \<and> CR \<notin> set n)"

text \<open>
  A closed ledger: no file yet, or a readable file that is empty or ends in a line
  feed, as every file written by \<open>mark_processed\<close> alone does.
\<close>

fun closed_ledger :: "ledger_file \<Rightarrow> bool" where
  "closed_ledger Missing = True"
| "closed_ledger (Text t) = (t = [] \<or> last t = LF)"
| "closed_ledger (Unreadable t) = False"

text \<open>Whether the stability check lets the pass handle the file.\<close>

definition stable_now :: "(string \<Rightarrow> tile_events) \<Rightarrow> string \<times> 't \<Rightarrow> bool" where
  "stable_now ev f = is_stable (size_first (ev (fst f))) (size_second (ev (fst f)))"

text \<open>
  A building misses a census table when, reprojected into the table's reference, it
  intersects none of its blocks.
\<close>

definition misses :: "'g con \<Rightarrow> int \<Rightarrow> int \<Rightarrow> 'g list \<Rightarrow> 'a \<times> 'g \<Rightarrow> bool" where
  "misses c b_srid r_srid blocks b =
     (case st_transform c (snd b) b_srid r_srid of
        None \<Rightarrow> True
      | Some g \<Rightarrow> filter (st_intersects c g) blocks = [])"

definition rows_of :: "'r gpkg \<Rightarrow> 'r list" where
  "rows_of f = (case f of Layer rows \<Rightarrow> rows | Absent \<Rightarrow> [] | Broken \<Rightarrow> [])"

definition matched_rows :: "'r outcome \<Rightarrow> 'r list" where
  "matched_rows r = (case r of Matched rows \<Rightarrow> rows | Empty \<Rightarrow> [] | GEOM_ERROR \<Rightarrow> [])"

text \<open>The rows that the calls of \<open>process_tile\<close> on the console returned, in order.\<close>

definition inserted :: "(string \<times> 'r outcome) list \<Rightarrow> 'r list" where
  "inserted lines = concat (map (\<lambda>l. matched_rows (snd l)) lines)"

text \<open>
  What every pass keeps: a closed ledger, a directory of distinct plain names, and a
  console of distinct names that the ledger reads back.
\<close>

definition settled :: "('a, 'g) state \<Rightarrow> bool" where
  "settled s =
     (closed_ledger (ledger s)
      \<and> distinct (map fst (watched s))
      \<and> (\<forall>f \<in> set (watched s). plain_name (fst f))
      \<and> distinct (map fst (console s))
      \<and> (\<forall>l \<in> set (console s). is_file_processed (ledger s) (fst l)))"

text \<open>
  No row occurs in the master output more often than in \<open>base\<close> and in the returned
  rows together.
\<close>

definition within :: "('a \<times> 'g) list \<Rightarrow> ('a, 'g) state \<Rightarrow> bool" where
  "within base s =
     (\<forall>row. count_list (rows_of (master s)) row
             \<le> count_list base row + count_list (inserted (console s)) row)"

section \<open>Example data\<close>

text \<open>
  A toy engine over geometries given as lists of grid cells: two geometries intersect
  when they share a cell, reprojection changes nothing, and the SRID of a geometry with
  at least one cell reads 4326. Two United States blocks share cell 2; the Canadian
  block shares cell 3 with the second of them.
\<close>

definition grid_con :: "nat list con" where
  "grid_con =
     \<lparr>st_srid = (\<lambda>g. if g = [] then None else Some 4326),
      st_transform = (\<lambda>g src dst. Some g),
      st_intersects = (\<lambda>g h. list_ex (\<lambda>x. x \<in> set h) g),
      census_us = [[1, 2], [2, 3]],
      census_canada = [[3, 4]]\<rparr>"

definition grid_tile :: "crs_meta \<Rightarrow> (nat \<times> nat list) list \<Rightarrow> (nat, nat list) tile" where
  "grid_tile m bs = \<lparr>readable = True, columns = [''id'', ''geom''], crs = m, buildings = bs\<rparr>"

definition bare_tile :: "(nat, nat list) tile" where
  "bare_tile =
     \<lparr>readable = True, columns = [''id'', ''height''], crs = CrsEpsg (Some 4326),
      buildings = [(1, [])]\<rparr>"

text \<open>The same engine when every reprojection into EPSG 5070 raises.\<close>

definition us_down_con :: "nat list con" where
  "us_down_con = grid_con\<lparr>st_transform := (\<lambda>g src dst. if dst = 5070 then None else Some g)\<rparr>"

definition fresh :: "(string \<times> ('a, 'g) tile) list \<Rightarrow> ledger_file \<Rightarrow> ('a, 'g) state" where
  "fresh dir lg =
     \<lparr>watched = dir, ledger = lg, master = Absent, master_tmp = Absent,
      processed_count = 0, error_count = 0, console = []\<rparr>"

definition steady :: "sink_fault \<Rightarrow> bool \<Rightarrow> string \<Rightarrow> tile_events" where
  "steady fault ok name =
     \<lparr>size_first = Some 2048, size_second = Some 2048, sink = fault, unlink_ok = ok\<rparr>"

section \<open>Properties of the ledger text\<close>

lemma LF_neq_CR: "LF \<noteq> CR" "CR \<noteq> LF"
  by (simp_all add: LF_def CR_def)

lemma isspace_LF: "isspace LF"
  by (simp add: isspace_def LF_def)

lemma translate_newlines_append:
  "t = [] \<or> last t \<noteq> CR \<Longrightarrow>
   translate_newlines (t @ u) = translate_newlines t @ translate_newlines u"
proof (induction t rule: translate_newlines.induct)
  case 1
  then show ?case by simp
next
  case (2 c)
  then show ?case by (cases u) auto
next
  case (3 c d cs)
  then show ?case by (cases cs) (auto split: if_splits)
qed

lemma translate_newlines_last:
  "t \<noteq> [] \<Longrightarrow> last t = LF \<Longrightarrow>
   translate_newlines t \<noteq> [] \<and> last (translate_newlines t) = LF"
  by (induction t rule: translate_newlines.induct) (auto simp: LF_neq_CR split: if_splits)

lemma translate_newlines_id: "CR \<notin> set n \<Longrightarrow> translate_newlines n = n"
  by (induction n rule: translate_newlines.induct) auto

lemma split_lines_append:
  "t \<noteq> [] \<Longrightarrow> last t = LF \<Longrightarrow>
   split_lines cur (t @ u) = split_lines cur t @ split_lines [] u"
  by (induction t arbitrary: cur) (auto split: if_splits)

lemma split_lines_one: "LF \<notin> set n \<Longrightarrow> split_lines cur (n @ [LF]) = [cur @ n @ [LF]]"
  by (induction n arbitrary: cur) auto

lemma file_lines_append:
  assumes "t = [] \<or> last t = LF"
  shows "file_lines (t @ u) = file_lines t @ file_lines u"
proof (cases "t = []")
  case True
  then show ?thesis by (simp add: file_lines_def)
next
  case False
  with assms have l: "last t = LF" by simp
  then have "last t \<noteq> CR" by (simp add: LF_neq_CR)
  then have "translate_newlines (t @ u) = translate_newlines t @ translate_newlines u"
    by (simp add: translate_newlines_append)
  moreover have "translate_newlines t \<noteq> [] \<and> last (translate_newlines t) = LF"
    using False l by (rule translate_newlines_last)
  ultimately show ?thesis
    by (simp add: file_lines_def split_lines_append)
qed

lemma file_lines_plain:
  assumes "plain_name n"
  shows "file_lines (n @ [LF]) = [n @ [LF]]"
proof -
  from assms have "CR \<notin> set (n @ [LF])" by (simp add: plain_name_def LF_neq_CR)
  then have "translate_newlines (n @ [LF]) = n @ [LF]" by (rule translate_newlines_id)
  moreover have "split_lines [] (n @ [LF]) = [[] @ n @ [LF]]"
    using assms by (intro split_lines_one) (simp add: plain_name_def)
  ultimately show ?thesis by (simp add: file_lines_def)
qed

lemma strip_plain:
  assumes "plain_name n"
  shows "strip (n @ [LF]) = n"
proof -
  from assms obtain c cs where n: "n = c # cs" and c: "\<not> isspace c"
    by (cases n) (auto simp: plain_name_def)
  from assms have l: "\<not> isspace (last n)" and ne: "n \<noteq> []" by (auto simp: plain_name_def)
  have "dropWhile isspace (n @ [LF]) = n @ [LF]" using n c by simp
  moreover have "dropWhile isspace (rev (n @ [LF])) = rev n"
    using l ne by (cases "rev n") (auto simp: hd_rev[symmetric] isspace_LF)
  ultimately show ?thesis by (simp add: strip_def)
qed

lemma closed_mark: "closed_ledger lg \<Longrightarrow> closed_ledger (mark_processed lg m)"
  by (cases lg) auto

lemma mark_keeps:
  assumes "closed_ledger lg" and "is_file_processed lg n"
  shows "is_file_processed (mark_processed lg m) n"
proof (cases lg)
  case (Text t)
  with assms(1) have "file_lines (t @ (m @ [LF])) = file_lines t @ file_lines (m @ [LF])"
    by (intro file_lines_append) simp
  with assms(2) Text show ?thesis by auto
qed (use assms in auto)

lemma mark_reads_back:
  assumes "closed_ledger lg" and "plain_name n"
  shows "is_file_processed (mark_processed lg n) n"
proof -
  from assms(2) have ne: "strip (n @ [LF]) \<noteq> []"
    by (simp add: strip_plain plain_name_def)
  show ?thesis
  proof (cases lg)
    case Missing
    then show ?thesis using assms(2) ne by (simp add: file_lines_plain strip_plain)
  next
    case (Text t)
    with assms(1) have "file_lines (t @ (n @ [LF])) = file_lines t @ file_lines (n @ [LF])"
      by (intro file_lines_append) simp
    then show ?thesis using Text assms(2) ne by (simp add: file_lines_plain strip_plain)
  next
    case (Unreadable t)
    then show ?thesis using assms(1) by simp
  qed
qed

lemma closed_foldl_mark: "closed_ledger lg \<Longrightarrow> closed_ledger (foldl mark_processed lg ns)"
  by (induction ns arbitrary: lg) (auto simp: closed_mark)

lemma foldl_mark_keeps:
  "closed_ledger lg \<Longrightarrow> is_file_processed lg n \<Longrightarrow>
   is_file_processed (foldl mark_processed lg ns) n"
  by (induction ns arbitrary: lg) (auto simp: closed_mark mark_keeps)

lemma foldl_mark_reads_back:
  "closed_ledger lg \<Longrightarrow> n \<in> set ns \<Longrightarrow> plain_name n \<Longrightarrow>
   is_file_processed (foldl mark_processed lg ns) n"
proof (induction ns arbitrary: lg)
  case Nil
  then show ?case by simp
next
  case (Cons m ns)
  show ?case
  proof (cases "n = m")
    case True
    with Cons.prems have "is_file_processed (mark_processed lg m) n"
      by (simp add: mark_reads_back)
    then show ?thesis
      using Cons.prems(1) by (simp add: foldl_mark_keeps closed_mark)
  next
    case False
    with Cons show ?thesis by (simp add: closed_mark)
  qed
qed

lemma missing_ledger_holds_nothing: "\<not> is_file_processed Missing name"
  by simp

lemma marked_twice_reads_the_same:
  assumes "closed_ledger lg"
  shows "is_file_processed (mark_processed (mark_processed lg n) n) x
         = is_file_processed (mark_processed lg n) x"
proof (cases lg)
  case Missing
  have "file_lines ((n @ [LF]) @ n @ [LF]) = file_lines (n @ [LF]) @ file_lines (n @ [LF])"
    by (rule file_lines_append) simp
  then show ?thesis using Missing by auto
next
  case (Text t)
  have "file_lines ((t @ n @ [LF]) @ n @ [LF]) = file_lines (t @ n @ [LF]) @ file_lines (n @ [LF])"
    by (rule file_lines_append) simp
  moreover have "file_lines (t @ n @ [LF]) = file_lines t @ file_lines (n @ [LF])"
    using assms Text by (intro file_lines_append) simp
  ultimately show ?thesis using Text by auto
next
  case (Unreadable t)
  then show ?thesis using assms by simp
qed

section \<open>Properties of one tile and one pass\<close>

lemma append_to_gpkg_keeps:
  "ledger (append_to_gpkg fault gdf s) = ledger s"
  "watched (append_to_gpkg fault gdf s) = watched s"
  "console (append_to_gpkg fault gdf s) = console s"
  "processed_count (append_to_gpkg fault gdf s) = processed_count s"
  by (auto simp: append_to_gpkg_def write_gpkg_def os_replace_def to_file_tmp_def Let_def
      split: gpkg.splits sink_fault.splits)

lemma unlink_keeps:
  "ledger (unlink ok name s) = ledger s"
  "console (unlink ok name s) = console s"
  "master (unlink ok name s) = master s"
  by (auto simp: unlink_def)

lemma handle_tile_ledger:
  "ledger (handle_tile c us ca ev s f) =
     (if stable_now ev f then mark_processed (ledger s) (fst f) else ledger s)"
  by (auto simp: handle_tile_def stable_now_def Let_def append_to_gpkg_keeps unlink_keeps
      split: outcome.splits)

lemma handle_tile_console:
  "console (handle_tile c us ca ev s f) =
     console s @ (if stable_now ev f then [(fst f, process_tile c (snd f) us ca)] else [])"
  by (auto simp: handle_tile_def stable_now_def Let_def append_to_gpkg_keeps unlink_keeps
      split: outcome.splits)

lemma handle_tile_watched:
  "watched (handle_tile c us ca ev s f) =
     (if stable_now ev f \<and> process_tile c (snd f) us ca \<noteq> GEOM_ERROR \<and> unlink_ok (ev (fst f))
      then filter (\<lambda>x. fst x \<noteq> fst f) (watched s) else watched s)"
  by (auto simp: handle_tile_def stable_now_def Let_def append_to_gpkg_keeps unlink_def
      split: outcome.splits)

lemma pass_ledger:
  "ledger (foldl (handle_tile c us ca ev) s todo) =
     foldl mark_processed (ledger s) (map fst (filter (stable_now ev) todo))"
  by (induction todo arbitrary: s) (auto simp: handle_tile_ledger)

lemma pass_console:
  "console (foldl (handle_tile c us ca ev) s todo) =
     console s @ map (\<lambda>f. (fst f, process_tile c (snd f) us ca)) (filter (stable_now ev) todo)"
  by (induction todo arbitrary: s) (auto simp: handle_tile_console)

lemma pass_watched_subset:
  "set (watched (foldl (handle_tile c us ca ev) s todo)) \<subseteq> set (watched s)"
proof (induction todo arbitrary: s)
  case Nil
  then show ?case by simp
next
  case (Cons f todo)
  have "set (watched (handle_tile c us ca ev s f)) \<subseteq> set (watched s)"
    by (auto simp: handle_tile_watched)
  with Cons.IH[of "handle_tile c us ca ev s f"] show ?case by auto
qed

lemma pass_watched_distinct:
  "distinct (map fst (watched s)) \<Longrightarrow>
   distinct (map fst (watched (foldl (handle_tile c us ca ev) s todo)))"
  by (induction todo arbitrary: s) (auto simp: handle_tile_watched distinct_map_filter)



lemma unprocessed_subset: "set (unprocessed s) \<subseteq> set (watched s)"
  by (auto simp: unprocessed_def glob_geojson_def)

lemma sort_key_distinct_names:
  "distinct (map fst dir) \<Longrightarrow> distinct (map fst (sort_key fst dir))"
  by (simp add: distinct_map)

lemma unprocessed_distinct:
  "distinct (map fst (watched s)) \<Longrightarrow> distinct (map fst (unprocessed s))"
  by (simp add: unprocessed_def glob_geojson_def distinct_map_filter sort_key_distinct_names)

lemma unprocessed_fresh: "f \<in> set (unprocessed s) \<Longrightarrow> \<not> is_file_processed (ledger s) (fst f)"
  by (simp add: unprocessed_def)

lemma main_cycle_fold:
  "main_cycle c us ca ev s = foldl (handle_tile c us ca ev) s (unprocessed s)"
  by (simp add: main_cycle_def Let_def)

lemma join_single: "join c b r blocks [b1] = join_building c b r blocks b1"
  by (simp split: option.splits)




lemma write_gpkg_raises:
  "master s' = master s \<Longrightarrow> snd (write_gpkg fault gdf s') = snd (write_gpkg fault gdf s)"
  by (simp add: write_gpkg_def Let_def split: gpkg.splits sink_fault.splits)


lemma failed_write_keeps_layer:
  "snd (write_gpkg fault gdf s) \<Longrightarrow> master s = Layer existing \<Longrightarrow>
   master (append_to_gpkg fault gdf s) = Layer existing"
  by (auto simp: append_to_gpkg_def write_gpkg_def to_file_tmp_def Let_def
      split: sink_fault.splits if_splits)

lemma handle_tile_master:
  "master (handle_tile c us ca ev s f) =
     (if stable_now ev f then
        (case process_tile c (snd f) us ca of
           Matched gdf \<Rightarrow>
             master (append_to_gpkg (sink (ev (fst f))) gdf
                       (s\<lparr>console := console s @ [(fst f, Matched gdf)]\<rparr>))
         | _ \<Rightarrow> master s)
      else master s)"
  by (auto simp: handle_tile_def stable_now_def Let_def unlink_keeps split: outcome.splits)

lemma handle_tile_processed_count:
  "processed_count (handle_tile c us ca ev s f) =
     (if stable_now ev f \<and> process_tile c (snd f) us ca \<noteq> GEOM_ERROR
      then processed_count s + 1 else processed_count s)"
  by (auto simp: handle_tile_def stable_now_def Let_def unlink_def append_to_gpkg_keeps
      split: outcome.splits)

text \<open>The definitions that evaluate the model on the example data.\<close>

lemmas run_defs = grid_con_def us_down_con_def grid_tile_def fresh_def steady_def
  process_tile_def tile_srid_def direct_srid_def region_results_def join_building_def
  lower_def lower_char_def geom_names_def OUTPUT_CRS_def main_cycle_def unprocessed_def
  glob_geojson_def ends_with_def handle_tile_def is_stable_def MIN_FILE_SIZE_def unlink_def
  append_to_gpkg_def write_gpkg_def left_behind_def os_replace_def to_file_tmp_def
  download_def put_file_def
  file_lines_def strip_def isspace_def LF_def CR_def Let_def stable_now_def misses_def
  plain_name_def

section \<open>Properties of a run\<close>

lemma put_file_names:
  "distinct (map fst dir) \<Longrightarrow> distinct (map fst (put_file f dir))"
  by (auto simp: put_file_def distinct_map_filter)

lemma download_names:
  "distinct (map fst dir) \<Longrightarrow> distinct (map fst (download new dir))"
  by (induction new) (auto simp: download_def put_file_names simp del: put_file_def)

lemma download_set:
  "set (download new dir) \<subseteq> set new \<union> set dir"
  by (induction new) (auto simp: download_def put_file_def)

lemma count_list_take: "count_list (take k xs) x \<le> count_list xs x"
proof -
  have "count_list (take k xs @ drop k xs) x = count_list (take k xs) x + count_list (drop k xs) x"
    by (rule count_list_append)
  then show ?thesis by simp
qed

lemma append_to_gpkg_rows:
  "count_list (rows_of (master (append_to_gpkg fault gdf s))) row
     \<le> count_list (rows_of (master s)) row + count_list gdf row"
  by (auto simp: append_to_gpkg_def write_gpkg_def left_behind_def os_replace_def
      to_file_tmp_def rows_of_def Let_def count_list_take trans_le_add2
      split: gpkg.splits sink_fault.splits write_left.splits)

lemma handle_tile_rows:
  "count_list (rows_of (master (handle_tile c us ca ev s f))) row
     \<le> count_list (rows_of (master s)) row
       + (if stable_now ev f then count_list (matched_rows (process_tile c (snd f) us ca)) row
          else 0)"
proof (cases "stable_now ev f")
  case False
  then show ?thesis by (simp add: handle_tile_master)
next
  case True
  show ?thesis
  proof (cases "process_tile c (snd f) us ca")
    case (Matched gdf)
    let ?s1 = "s\<lparr>console := console s @ [(fst f, Matched gdf)]\<rparr>"
    have "count_list (rows_of (master (append_to_gpkg (sink (ev (fst f))) gdf ?s1))) row
            \<le> count_list (rows_of (master ?s1)) row + count_list gdf row"
      by (rule append_to_gpkg_rows)
    then show ?thesis using True Matched by (simp add: handle_tile_master matched_rows_def)
  qed (use True in \<open>simp_all add: handle_tile_master\<close>)
qed

lemma handle_tile_within:
  assumes "within base s"
  shows "within base (handle_tile c us ca ev s f)"
  unfolding within_def
proof
  fix row
  have "count_list (rows_of (master (handle_tile c us ca ev s f))) row
     \<le> count_list (rows_of (master s)) row
       + (if stable_now ev f then count_list (matched_rows (process_tile c (snd f) us ca)) row
          else 0)"
    by (rule handle_tile_rows)
  moreover have "count_list (rows_of (master s)) row
      \<le> count_list base row + count_list (inserted (console s)) row"
    using assms unfolding within_def by blast
  moreover have "count_list (inserted (console (handle_tile c us ca ev s f))) row
      = count_list (inserted (console s)) row
        + (if stable_now ev f then count_list (matched_rows (process_tile c (snd f) us ca)) row
           else 0)"
    by (simp add: handle_tile_console inserted_def)
  ultimately show "count_list (rows_of (master (handle_tile c us ca ev s f))) row
      \<le> count_list base row + count_list (inserted (console (handle_tile c us ca ev s f))) row"
    by linarith
qed

lemma pass_within:
  "within base s \<Longrightarrow> within base (foldl (handle_tile c us ca ev) s todo)"
  by (induction todo arbitrary: s) (auto simp: handle_tile_within)

lemma pass_settled:
  assumes "settled s"
  shows "settled (main_cycle c us ca ev s)"
proof -
  let ?todo = "unprocessed s"
  let ?ns = "map fst (filter (stable_now ev) ?todo)"
  let ?s' = "main_cycle c us ca ev s"
  from assms have cl: "closed_ledger (ledger s)" and dw: "distinct (map fst (watched s))"
    and pl: "\<forall>f \<in> set (watched s). plain_name (fst f)"
    and dc: "distinct (map fst (console s))"
    and seen: "\<forall>l \<in> set (console s). is_file_processed (ledger s) (fst l)"
    by (auto simp: settled_def)
  have l: "ledger ?s' = foldl mark_processed (ledger s) ?ns"
    by (simp add: main_cycle_fold pass_ledger)
  have k: "map fst (console ?s') = map fst (console s) @ ?ns"
    by (simp add: main_cycle_fold pass_console comp_def)
  have sub: "set (watched ?s') \<subseteq> set (watched s)"
    by (simp add: main_cycle_fold pass_watched_subset)
  have ns_plain: "plain_name n" if "n \<in> set ?ns" for n
    using that pl unprocessed_subset[of s] by auto
  have ns_new: "\<not> is_file_processed (ledger s) n" if "n \<in> set ?ns" for n
    using that unprocessed_fresh[of _ s] by auto
  have 1: "closed_ledger (ledger ?s')"
    using cl by (simp add: l closed_foldl_mark)
  have 2: "distinct (map fst (watched ?s'))"
    using dw by (simp add: main_cycle_fold pass_watched_distinct)
  have 3: "\<forall>f \<in> set (watched ?s'). plain_name (fst f)"
    using pl sub by blast
  have "distinct ?ns"
    using unprocessed_distinct[OF dw] by (simp add: distinct_map_filter)
  moreover have "set (map fst (console s)) \<inter> set ?ns = {}"
    using seen ns_new by auto
  ultimately have 4: "distinct (map fst (console ?s'))"
    using dc by (simp add: k)
  have 5: "is_file_processed (ledger ?s') n" if "n \<in> set (map fst (console ?s'))" for n
  proof -
    from that have "n \<in> set (map fst (console s)) \<or> n \<in> set ?ns"
      unfolding k by simp
    then show ?thesis
    proof
      assume "n \<in> set (map fst (console s))"
      then have "is_file_processed (ledger s) n" using seen by auto
      then show ?thesis using cl by (simp add: l foldl_mark_keeps)
    next
      assume n: "n \<in> set ?ns"
      then show ?thesis using cl ns_plain[OF n] unfolding l by (intro foldl_mark_reads_back)
    qed
  qed
  show ?thesis
    unfolding settled_def using 1 2 3 4 5 by auto
qed

lemma arrivals_settled:
  assumes "settled s" and "\<forall>f \<in> set new. plain_name (fst f)"
  shows "settled (s\<lparr>watched := download new (watched s)\<rparr>)"
  using assms download_set[of new "watched s"]
  by (auto simp: settled_def download_names)

lemma arrivals_within: "within base s \<Longrightarrow> within base (s\<lparr>watched := dir\<rparr>)"
  by (simp add: within_def)

lemma main_cycle_within: "within base s \<Longrightarrow> within base (main_cycle c us ca ev s)"
  by (simp add: main_cycle_fold pass_within)

lemma run_settled:
  "settled s \<Longrightarrow> within base s \<Longrightarrow>
   \<forall>r \<in> set rounds. \<forall>f \<in> set (arrivals r). plain_name (fst f) \<Longrightarrow>
   settled (main_run c us ca rounds s) \<and> within base (main_run c us ca rounds s)"
proof (induction rounds arbitrary: s)
  case Nil
  then show ?case by simp
next
  case (Cons r rounds)
  let ?s1 = "s\<lparr>watched := download (arrivals r) (watched s)\<rparr>"
  have "settled ?s1" using Cons.prems(1,3) by (intro arrivals_settled) auto
  then have a: "settled (main_cycle c us ca (events r) ?s1)" by (rule pass_settled)
  have "within base ?s1" using Cons.prems(2) by (rule arrivals_within)
  then have b: "within base (main_cycle c us ca (events r) ?s1)" by (rule main_cycle_within)
  show ?case using Cons.IH[OF a b] Cons.prems(3) by simp
qed

text \<open>
  The step for a tile with matched rows, whatever the sink does: the name is appended
  to the ledger, the tile is counted and unlinked, and the next scan leaves it out when
  the unlink succeeded or when the name is plain and the ledger closed.
\<close>

lemma failed_write_step:
  assumes "stable_now ev (name, t)"
    and "process_tile c t us_srid canada_srid = Matched gdf"
  shows "ledger (handle_tile c us_srid canada_srid ev s (name, t)) = mark_processed (ledger s) name
       \<and> processed_count (handle_tile c us_srid canada_srid ev s (name, t)) = processed_count s + 1
       \<and> watched (handle_tile c us_srid canada_srid ev s (name, t))
           = (if unlink_ok (ev name) then filter (\<lambda>x. fst x \<noteq> name) (watched s) else watched s)
       \<and> (unlink_ok (ev name) \<or> (plain_name name \<and> closed_ledger (ledger s)) \<longrightarrow>
            name \<notin> fst ` set (unprocessed (handle_tile c us_srid canada_srid ev s (name, t))))"
proof -
  let ?s' = "handle_tile c us_srid canada_srid ev s (name, t)"
  let ?s1 = "s\<lparr>console := console s @ [(name, Matched gdf)]\<rparr>"
  have l: "ledger ?s' = mark_processed (ledger s) name"
    using assms(1) by (simp add: handle_tile_ledger)
  have w: "watched ?s' = (if unlink_ok (ev name) then filter (\<lambda>x. fst x \<noteq> name) (watched s) else watched s)"
    using assms(1,2) by (simp add: handle_tile_watched)
  have p: "processed_count ?s' = processed_count s + 1"
    using assms(1,2) by (simp add: handle_tile_processed_count)
  have r: "name \<notin> fst ` set (unprocessed ?s')"
    if "unlink_ok (ev name) \<or> (plain_name name \<and> closed_ledger (ledger s))"
  proof
    assume "name \<in> fst ` set (unprocessed ?s')"
    then obtain g where g: "g \<in> set (unprocessed ?s')" and n: "fst g = name" by auto
    from g have in_dir: "g \<in> set (watched ?s')" using unprocessed_subset by blast
    from g have not_read: "\<not> is_file_processed (ledger ?s') (fst g)" by (rule unprocessed_fresh)
    from that show False
    proof
      assume "unlink_ok (ev name)"
      with in_dir n w show False by auto
    next
      assume "plain_name name \<and> closed_ledger (ledger s)"
      then have "is_file_processed (mark_processed (ledger s) name) name"
        by (simp add: mark_reads_back)
      with not_read n l show False by simp
    qed
  qed
  from l p w r show ?thesis by blast
qed

lemma main_start_gives_up:
  "main_start us_file canada_file = None
   \<longleftrightarrow> load_census_once us_file = None \<and> load_census_once canada_file = None"
  by (simp add: main_start_def Let_def)

section \<open>The claims\<close>

text \<open>
  C1, at the name \<open>" a.geojson"\<close>: the ledger holds the line written by
  \<open>mark_processed\<close> for that name, and the scan still lists the file as a candidate; in
  a run of two passes over a tile that gives \<open>GEOM_ERROR\<close> (and so stays on disk) the tile
  is read in both passes.
\<close>

theorem C1_padded_name_processed_again:
  "unprocessed
     (fresh [('' a.geojson'', grid_tile CrsEmpty [(1, [])])] (mark_processed Missing '' a.geojson''))
     = [('' a.geojson'', grid_tile CrsEmpty [(1, [])])]
   \<and> console
       (main_run grid_con (Some 5070) (Some 3347)
          [\<lparr>arrivals = [], events = steady NoFault True\<rparr>,
           \<lparr>arrivals = [], events = steady NoFault True\<rparr>]
          (fresh [('' a.geojson'', grid_tile CrsEmpty [(1, [])])] Missing))
     = [('' a.geojson'', GEOM_ERROR), ('' a.geojson'', GEOM_ERROR)]"
  by (simp add: run_defs)






text \<open>
  C4 as stated fails: one pass over one tile, processed once, whose only building lies
  in a United States block and in a Canadian block, leaves that building twice in the
  master output.
\<close>

theorem C4_counterexample:
  "master (main_run grid_con (Some 5070) (Some 3347)
      [\<lparr>arrivals = [(''t.geojson'', grid_tile CrsEmpty [(7, [3])])],
        events = steady NoFault True\<rparr>] (fresh [] Missing))
     = Layer [(7, [3]), (7, [3])]
   \<and> console (main_run grid_con (Some 5070) (Some 3347)
      [\<lparr>arrivals = [(''t.geojson'', grid_tile CrsEmpty [(7, [3])])],
        events = steady NoFault True\<rparr>] (fresh [] Missing))
     = [(''t.geojson'', Matched [(7, [3]), (7, [3])])]"
  by (simp add: run_defs)

text \<open>
  C4, amended: in every run that starts from a closed ledger and meets plain file names
  only, no tile name is processed twice, and every row occurs in the master output at
  most as often as in the master output at the start and in the rows returned for the
  processed tiles together; so the rows of a tile are inserted at most once, and a row
  is repeated in the master output only as far as a single result repeats it.
\<close>

theorem C4_tile_rows_inserted_once:
  assumes "closed_ledger (ledger s)"
    and "console s = []"
    and "distinct (map fst (watched s))"
    and "\<forall>f \<in> set (watched s). plain_name (fst f)"
    and "\<forall>r \<in> set rounds. \<forall>f \<in> set (arrivals r). plain_name (fst f)"
  shows "distinct (map fst (console (main_run c us_srid canada_srid rounds s)))
       \<and> count_list (rows_of (master (main_run c us_srid canada_srid rounds s))) row
           \<le> count_list (rows_of (master s)) row
             + count_list (inserted (console (main_run c us_srid canada_srid rounds s))) row"
proof -
  have "settled s" using assms(1-4) by (simp add: settled_def)
  moreover have "within (rows_of (master s)) s" by (simp add: within_def)
  ultimately have "settled (main_run c us_srid canada_srid rounds s)
      \<and> within (rows_of (master s)) (main_run c us_srid canada_srid rounds s)"
    using assms(5) by (rule run_settled)
  then show ?thesis unfolding settled_def within_def by blast
qed

theorem C4_tile_rows_inserted_once_witness:
  "console (main_run grid_con (Some 5070) (Some 3347)
      [\<lparr>arrivals = [(''t.geojson'', grid_tile CrsEmpty [(7, [3])])],
        events = steady NoFault True\<rparr>,
       \<lparr>arrivals = [(''t.geojson'', grid_tile CrsEmpty [(7, [3])])],
        events = steady NoFault True\<rparr>] (fresh [] Missing))
     = [(''t.geojson'', Matched [(7, [3]), (7, [3])])]
   \<and> count_list (rows_of (master (main_run grid_con (Some 5070) (Some 3347)
      [\<lparr>arrivals = [(''t.geojson'', grid_tile CrsEmpty [(7, [3])])],
        events = steady NoFault True\<rparr>,
       \<lparr>arrivals = [(''t.geojson'', grid_tile CrsEmpty [(7, [3])])],
        events = steady NoFault True\<rparr>] (fresh [] Missing)))) (7, [3]) \<le> 2"
proof -
  let ?t = "grid_tile CrsEmpty [(7::nat, [3::nat])]"
  let ?r = "\<lparr>arrivals = [(''t.geojson'', ?t)], events = steady NoFault True\<rparr>"
  let ?s = "fresh [] Missing :: (nat, nat list) state"
  have 1: "closed_ledger (ledger ?s)" by (simp add: fresh_def)
  have 2: "console ?s = []" by (simp add: fresh_def)
  have 3: "distinct (map fst (watched ?s))" by (simp add: fresh_def)
  have 4: "\<forall>f \<in> set (watched ?s). plain_name (fst f)" by (simp add: fresh_def)
  have 5: "\<forall>r \<in> set [?r, ?r]. \<forall>f \<in> set (arrivals r). plain_name (fst f)"
    by (simp add: plain_name_def isspace_def LF_def CR_def)
  have k: "console (main_run grid_con (Some 5070) (Some 3347) [?r, ?r] ?s)
      = [(''t.geojson'', Matched [(7, [3]), (7, [3])])]"
    by (simp add: run_defs)
  have m: "rows_of (master ?s) = []" by (simp add: fresh_def rows_of_def)
  show ?thesis
    using C4_tile_rows_inserted_once [OF 1 2 3 4 5, of grid_con "Some 5070" "Some 3347" "(7, [3])"] k m
    by (simp add: inserted_def matched_rows_def)
qed




text \<open>
  C6, at the name \<open>" a.geojson"\<close>: after \<open>mark_processed\<close> on a missing ledger the file
  holds the line, and \<open>is_file_processed\<close> still answers False for that name, because
  the lines are stripped before the comparison and the name is not.
\<close>

theorem C6_padded_name_not_read_back:
  "mark_processed Missing '' a.geojson'' = Text ('' a.geojson'' @ [LF])
   \<and> \<not> is_file_processed (mark_processed Missing '' a.geojson'') '' a.geojson''"
  by (simp add: file_lines_def strip_def isspace_def LF_def CR_def)

text \<open>
  C7 as stated fails: a tile without geometry column is answered with \<open>GEOM_ERROR\<close>
  before any SRID is looked for, although the CRS metadata of the file gives 4326.
\<close>

theorem C7_counterexample:
  "\<not> (process_tile grid_con bare_tile (Some 5070) (Some 3347) = GEOM_ERROR
        \<longleftrightarrow> direct_srid grid_con bare_tile = None
            \<and> get_srid_via_fiona (crs bare_tile) = None)"
  by (simp add: process_tile_def bare_tile_def lower_def lower_char_def geom_names_def)

text \<open>
  C7, amended: for a tile that loads and has a geometry column, the SRID read off the
  geometry is taken when there is one, the CRS metadata of the file is consulted only
  when there is none, and the result is \<open>GEOM_ERROR\<close> exactly when both give nothing.
\<close>

theorem C7_srid_detection:
  assumes "readable t" and "detect_geom_col (columns t) = Some geom_col"
  shows "(direct_srid c t = Some b_srid \<longrightarrow> tile_srid c t = Some b_srid)
       \<and> (direct_srid c t = None \<longrightarrow> tile_srid c t = get_srid_via_fiona (crs t))
       \<and> (process_tile c t us_srid canada_srid = GEOM_ERROR
            \<longleftrightarrow> direct_srid c t = None \<and> get_srid_via_fiona (crs t) = None)"
  using assms by (auto simp: tile_srid_def process_tile_def Let_def split: option.splits)

theorem C7_srid_detection_witness:
  "direct_srid grid_con (grid_tile (CrsEpsg (Some 3857)) []) = None
   \<and> tile_srid grid_con (grid_tile (CrsEpsg (Some 3857)) []) = Some 3857
   \<and> process_tile grid_con (grid_tile (CrsEpsg (Some 3857)) []) (Some 5070) (Some 3347)
       \<noteq> GEOM_ERROR"
proof -
  let ?t = "grid_tile (CrsEpsg (Some 3857)) ([] :: (nat \<times> nat list) list)"
  have 1: "readable ?t" by (simp add: grid_tile_def)
  have 2: "detect_geom_col (columns ?t) = Some ''geom''"
    by (simp add: grid_tile_def lower_def lower_char_def geom_names_def)
  have 3: "direct_srid grid_con ?t = None" by (simp add: direct_srid_def grid_tile_def)
  have 4: "get_srid_via_fiona (crs ?t) = Some 3857" by (simp add: grid_tile_def)
  show ?thesis
    using C7_srid_detection [OF 1 2, of grid_con 0 "Some 5070" "Some 3347"] 3 4 by simp
qed

text \<open>
  C8. For a tile that passed geometry and SRID detection: when the join with one region
  raises, the result is the one obtained with that region skipped, so the other
  region's join decides it; the result is never \<open>GEOM_ERROR\<close>; and the step appends the
  name to the ledger and unlinks the file, as for every result other than
  \<open>GEOM_ERROR\<close>.
\<close>

theorem C8_join_failure_stays_local:
  assumes "readable t"
    and "detect_geom_col (columns t) = Some geom_col"
    and "tile_srid c t = Some b_srid"
    and "stable_now ev (name, t)"
  shows "(join c b_srid r (census_us c) (buildings t) = None \<longrightarrow>
            process_tile c t (Some r) canada_srid = process_tile c t None canada_srid)
       \<and> (join c b_srid r (census_canada c) (buildings t) = None \<longrightarrow>
            process_tile c t us_srid (Some r) = process_tile c t us_srid None)
       \<and> process_tile c t us_srid canada_srid \<noteq> GEOM_ERROR
       \<and> ledger (handle_tile c us_srid canada_srid ev s (name, t)) = mark_processed (ledger s) name
       \<and> watched (handle_tile c us_srid canada_srid ev s (name, t))
           = (if unlink_ok (ev name) then filter (\<lambda>x. fst x \<noteq> name) (watched s) else watched s)"
proof -
  have ne: "process_tile c t us_srid canada_srid \<noteq> GEOM_ERROR"
    using assms(1,2,3) by (simp add: process_tile_def Let_def)
  have us: "process_tile c t (Some r) canada_srid = process_tile c t None canada_srid"
    if "join c b_srid r (census_us c) (buildings t) = None"
    using assms(1,2,3) that by (simp add: process_tile_def region_results_def)
  have ca: "process_tile c t us_srid (Some r) = process_tile c t us_srid None"
    if "join c b_srid r (census_canada c) (buildings t) = None"
    using assms(1,2,3) that by (simp add: process_tile_def region_results_def)
  show ?thesis
    using ne us ca assms(4) by (simp add: handle_tile_ledger handle_tile_watched)
qed

theorem C8_join_failure_stays_local_witness:
  "join us_down_con 4326 5070 (census_us us_down_con) [(7::nat, [3])] = None
   \<and> process_tile us_down_con (grid_tile CrsEmpty [(7, [3])]) (Some 5070) (Some 3347)
       = Matched [(7, [3])]
   \<and> ledger (handle_tile us_down_con (Some 5070) (Some 3347) (steady NoFault True)
        (fresh [(''t.geojson'', grid_tile CrsEmpty [(7, [3])])] Missing)
        (''t.geojson'', grid_tile CrsEmpty [(7, [3])])) = Text (''t.geojson'' @ [LF])
   \<and> watched (handle_tile us_down_con (Some 5070) (Some 3347) (steady NoFault True)
        (fresh [(''t.geojson'', grid_tile CrsEmpty [(7, [3])])] Missing)
        (''t.geojson'', grid_tile CrsEmpty [(7, [3])])) = []"
proof -
  let ?t = "grid_tile CrsEmpty [(7::nat, [3::nat])]"
  let ?s = "fresh [(''t.geojson'', ?t)] Missing"
  have 1: "readable ?t" by (simp add: grid_tile_def)
  have 2: "detect_geom_col (columns ?t) = Some ''geom''" by (simp add: run_defs)
  have 3: "tile_srid us_down_con ?t = Some 4326" by (simp add: run_defs)
  have 4: "stable_now (steady NoFault True) (''t.geojson'', ?t)" by (simp add: run_defs)
  have 5: "join us_down_con 4326 5070 (census_us us_down_con) (buildings ?t) = None"
    by (simp add: run_defs)
  have 6: "process_tile us_down_con ?t None (Some 3347) = Matched [(7, [3])]"
    by (simp add: run_defs)
  have 7: "buildings ?t = [(7, [3])]" by (simp add: grid_tile_def)
  have 8: "ledger ?s = Missing" "watched ?s = [(''t.geojson'', ?t)]"
    "unlink_ok (steady NoFault True ''t.geojson'')"
    by (simp_all add: fresh_def steady_def)
  show ?thesis
    using C8_join_failure_stays_local [OF 1 2 3 4, of 5070 "Some 3347" "Some 5070" ?s] 5 6 7 8
    by simp
qed

text \<open>
  C9, at the name \<open>" a.geojson"\<close>, for a tile with one matched row whose write and
  whose unlink raise in every pass: the first pass leaves an output without the row, the
  ledger with the line of the name and the file in the watched directory; the second
  pass still lists the tile, processes it again and calls the appender again for the
  same rows (its write to the temporary path leaves a file there), so the failed write
  is tried a second time.
\<close>

theorem C9_failed_write_retried:
  "main_run grid_con (Some 5070) (Some 3347)
      [\<lparr>arrivals = [], events = steady (WriteFails (LeftRows 0)) False\<rparr>]
      (fresh [('' a.geojson'', grid_tile CrsEmpty [(7, [1])])] Missing)
     = \<lparr>watched = [('' a.geojson'', grid_tile CrsEmpty [(7, [1])])],
        ledger = Text ('' a.geojson'' @ [LF]),
        master = Layer [], master_tmp = Absent,
        processed_count = 1, error_count = 0,
        console = [('' a.geojson'', Matched [(7, [1])])]\<rparr>
   \<and> main_run grid_con (Some 5070) (Some 3347)
      [\<lparr>arrivals = [], events = steady (WriteFails (LeftRows 0)) False\<rparr>,
       \<lparr>arrivals = [], events = steady (WriteFails (LeftRows 0)) False\<rparr>]
      (fresh [('' a.geojson'', grid_tile CrsEmpty [(7, [1])])] Missing)
     = \<lparr>watched = [('' a.geojson'', grid_tile CrsEmpty [(7, [1])])],
        ledger = Text ('' a.geojson'' @ [LF] @ '' a.geojson'' @ [LF]),
        master = Layer [], master_tmp = Layer [],
        processed_count = 2, error_count = 0,
        console = [('' a.geojson'', Matched [(7, [1])]), ('' a.geojson'', Matched [(7, [1])])]\<rparr>"
  by (simp add: run_defs)

text \<open>
  C10. A tile of one building, joined with the United States table only (the Canadian
  part adds nothing): the result holds the building once for each block it intersects,
  so more than once as soon as it intersects two blocks.
\<close>

theorem C10_row_per_intersecting_block:
  assumes "readable t" and "detect_geom_col (columns t) = Some geom_col"
    and "tile_srid c t = Some b_srid"
    and "buildings t = [(a, g)]"
    and "st_transform c g b_srid us = Some g_us"
    and "st_transform c g b_srid OUTPUT_CRS = Some out"
    and "filter (st_intersects c g_us) (census_us c) \<noteq> []"
    and "region_results c b_srid canada_srid (census_canada c) (buildings t) = []"
  shows "process_tile c t (Some us) canada_srid =
           Matched (replicate (length (filter (st_intersects c g_us) (census_us c))) (a, out))"
proof -
  have "join c b_srid us (census_us c) (buildings t) =
          Some (map (\<lambda>blk. (a, out)) (filter (st_intersects c g_us) (census_us c)))"
    using assms(4,5,6,7) by (simp add: join_building_def split: list.splits)
  then have "region_results c b_srid (Some us) (census_us c) (buildings t) =
          [map (\<lambda>blk. (a, out)) (filter (st_intersects c g_us) (census_us c))]"
    using assms(7) by (simp add: region_results_def)
  then show ?thesis
    using assms(1,2,3,8) by (simp add: process_tile_def map_replicate_const)
qed

theorem C10_row_per_intersecting_block_witness:
  "process_tile grid_con (grid_tile CrsEmpty [(7, [2])]) (Some 5070) (Some 3347)
     = Matched [(7, [2]), (7, [2])]
   \<and> filter (st_intersects grid_con [2]) (census_canada grid_con) = []"
proof -
  let ?t = "grid_tile CrsEmpty [(7, [2])]"
  have 1: "readable ?t" by (simp add: grid_tile_def)
  have 2: "detect_geom_col (columns ?t) = Some ''geom''"
    by (simp add: grid_tile_def lower_def lower_char_def geom_names_def)
  have 3: "tile_srid grid_con ?t = Some 4326"
    by (simp add: tile_srid_def direct_srid_def grid_tile_def grid_con_def)
  have 4: "buildings ?t = [(7, [2])]" by (simp add: grid_tile_def)
  have 5: "st_transform grid_con [2] 4326 5070 = Some [2]" by (simp add: grid_con_def)
  have 6: "st_transform grid_con [2] 4326 OUTPUT_CRS = Some [2]" by (simp add: grid_con_def)
  have 7: "filter (st_intersects grid_con [2]) (census_us grid_con) \<noteq> []"
    by (simp add: grid_con_def)
  have 8: "region_results grid_con 4326 (Some 3347) (census_canada grid_con) (buildings ?t) = []"
    by (simp add: region_results_def join_building_def grid_con_def grid_tile_def)
  have 9: "filter (st_intersects grid_con [2]) (census_canada grid_con) = []"
    by (simp add: grid_con_def)
  have 10: "length (filter (st_intersects grid_con [2]) (census_us grid_con)) = 2"
    by (simp add: grid_con_def)
  show ?thesis
    using C10_row_per_intersecting_block [OF 1 2 3 4 5 6 7 8] 9 10
    by (simp add: numeral_2_eq_2)
qed

end
